theory Spec2Isabelle
  imports Complex_Main "HOL-Library.Word" "HOL-Library.Sublist" "HOL-Library.Log_Nat"
begin

unbundle bit_operations_syntax

section \<open>The MiniScale driver (m5stack\_mini\_scale.py)\<close>

text \<open>
  Python exceptions are values. A bus transaction that cannot complete raises \<open>OSError\<close>
  in smbus2; indexing past the end of a sequence raises \<open>IndexError\<close>;
  \<open>struct.unpack\<close> on a buffer of the wrong size raises \<open>struct.error\<close>; converting
  an \<open>int\<close> too large for a \<open>float\<close> raises \<open>OverflowError\<close>; dividing by a zero
  \<open>float\<close> raises \<open>ZeroDivisionError\<close>.
\<close>

datatype exn =
  OSError | IndexError | StructError | ValueError | OverflowError | ZeroDivisionError

type_synonym byte = "8 word"

text \<open>
  The outcome of one \<open>read_i2c_block_data\<close>: the bytes the device sent, or the exception.
  The device is outside the program, so each method takes the outcome of every bus
  transaction it makes as an argument; the transactions it puts on the bus are recorded.
\<close>

type_synonym reply = "exn + byte list"

text \<open>A Python \<open>str\<close> is the list of its Unicode code points.\<close>

type_synonym pystr = "nat list"

definition str :: "string \<Rightarrow> pystr" where
  "str cs = map of_char cs"

text \<open>
  Python floats that only pass through the program are kept symbolic: the value that
  \<open>struct.unpack("<f", b)[0]\<close> decodes from four bytes, the quotient \<open>val / 100.0\<close>,
  a product with the configured sign, and \<open>float("nan")\<close>.
\<close>

datatype pyfloat =
    FromF32 "byte list"
  | IntDiv100 int
  | Times pyfloat real
  | NaN

text \<open>One sample, as handed to \<open>writer.writerow\<close>.\<close>

record row =
  Time :: pystr
  Weight_g :: pyfloat
  Weight_x100_g :: pyfloat
  RawADC :: int

text \<open>
  What the process does to the outside world, in order: bus transactions (address,
  register, length or payload), rows appended to a log file (path, row) and sleeps.
  The driver adds the bus transactions, the logger the rest, to one trace.
\<close>

datatype effect =
    BusRead int int nat
  | BusWrite int int "int list"
  | CsvRow pystr row
  | Sleep real

record MiniScale =
  addr :: int
  trace :: "effect list"

definition REG_RAW_ADC :: int where "REG_RAW_ADC = 0x00"
definition REG_WEIGHT_F32 :: int where "REG_WEIGHT_F32 = 0x10"
definition REG_BUTTON :: int where "REG_BUTTON = 0x20"
definition REG_OFFSET_TARE :: int where "REG_OFFSET_TARE = 0x50"
definition REG_WEIGHT_X100_I32 :: int where "REG_WEIGHT_X100_I32 = 0x60"
definition REG_FILTERS :: int where "REG_FILTERS = 0x80"
definition REG_I2C_ADDRESS :: int where "REG_I2C_ADDRESS = 0xFF"

text \<open>\<open>_read_block(reg, n)\<close>; \<open>r\<close> is what the bus answers.\<close>

definition read_block :: "MiniScale \<Rightarrow> int \<Rightarrow> nat \<Rightarrow> reply \<Rightarrow> reply \<times> MiniScale" where
  "read_block s reg n r = (r, s\<lparr>trace := trace s @ [BusRead (addr s) reg n]\<rparr>)"

text \<open>\<open>_write_block(reg, data)\<close>; \<open>w\<close> is \<open>None\<close> when the bus accepts the write.\<close>

definition write_block :: "MiniScale \<Rightarrow> int \<Rightarrow> int list \<Rightarrow> exn option \<Rightarrow> (exn + unit) \<times> MiniScale" where
  "write_block s reg payload w =
     ((case w of None \<Rightarrow> Inr () | Some e \<Rightarrow> Inl e),
      s\<lparr>trace := trace s @ [BusWrite (addr s) reg payload]\<rparr>)"

text \<open>\<open>int.from_bytes(b, "little", signed=True)\<close>, for a buffer of any length.\<close>

fun le_unsigned :: "byte list \<Rightarrow> int" where
  "le_unsigned [] = 0"
| "le_unsigned (b # bs) = uint b + 256 * le_unsigned bs"

definition from_bytes_le_signed :: "byte list \<Rightarrow> int" where
  "from_bytes_le_signed b =
     (let u = le_unsigned b; n = length b
      in if 0 < n \<and> 2 ^ (8 * n - 1) \<le> u then u - 2 ^ (8 * n) else u)"

definition get_raw_adc :: "MiniScale \<Rightarrow> reply \<Rightarrow> (exn + int) \<times> MiniScale" where
  "get_raw_adc s r =
     (case read_block s REG_RAW_ADC 4 r of
        (Inl e, s') \<Rightarrow> (Inl e, s')
      | (Inr b, s') \<Rightarrow> (Inr (from_bytes_le_signed b), s'))"

definition get_weight_float :: "MiniScale \<Rightarrow> reply \<Rightarrow> (exn + pyfloat) \<times> MiniScale" where
  "get_weight_float s r =
     (case read_block s REG_WEIGHT_F32 4 r of
        (Inl e, s') \<Rightarrow> (Inl e, s')
      | (Inr b, s') \<Rightarrow> (if length b = 4 then Inr (FromF32 b) else Inl StructError, s'))"

definition get_weight_int :: "MiniScale \<Rightarrow> reply \<Rightarrow> (exn + pyfloat) \<times> MiniScale" where
  "get_weight_int s r =
     (case read_block s REG_WEIGHT_X100_I32 4 r of
        (Inl e, s') \<Rightarrow> (Inl e, s')
      | (Inr b, s') \<Rightarrow> (Inr (IntDiv100 (from_bytes_le_signed b)), s'))"

definition tare :: "MiniScale \<Rightarrow> exn option \<Rightarrow> (exn + unit) \<times> MiniScale" where
  "tare s w = write_block s REG_OFFSET_TARE [1] w"

subsection \<open>Python numbers in the calibration helper\<close>











subsection \<open>Button and filters\<close>

definition get_button_pressed :: "MiniScale \<Rightarrow> reply \<Rightarrow> (exn + bool) \<times> MiniScale" where
  "get_button_pressed s r =
     (case read_block s REG_BUTTON 1 r of
        (Inl e, s') \<Rightarrow> (Inl e, s')
      | (Inr [], s') \<Rightarrow> (Inl IndexError, s')
      | (Inr (v # _), s') \<Rightarrow> (Inr (v = 0), s'))"

text \<open>\<open>cur[i] = int(v) & 0xFF\<close> when \<open>v\<close> is not \<open>None\<close>; a short list raises.\<close>

definition set_field :: "nat \<Rightarrow> int option \<Rightarrow> int list \<Rightarrow> exn + int list" where
  "set_field i v cur =
     (case v of
        None \<Rightarrow> Inr cur
      | Some x \<Rightarrow> if i < length cur then Inr (cur[i := x AND 0xFF]) else Inl IndexError)"

definition set_filters ::
  "MiniScale \<Rightarrow> reply \<Rightarrow> exn option \<Rightarrow> int option \<Rightarrow> int option \<Rightarrow> int option
     \<Rightarrow> (exn + unit) \<times> MiniScale" where
  "set_filters s r w lp_enabled avg_level ema_alpha =
     (case read_block s REG_FILTERS 3 r of
        (Inl e, s') \<Rightarrow> (Inl e, s')
      | (Inr b, s') \<Rightarrow>
          (case set_field 0 lp_enabled (map uint b) of
             Inl e \<Rightarrow> (Inl e, s')
           | Inr c0 \<Rightarrow>
               (case set_field 1 avg_level c0 of
                  Inl e \<Rightarrow> (Inl e, s')
                | Inr c1 \<Rightarrow>
                    (case set_field 2 ema_alpha c1 of
                       Inl e \<Rightarrow> (Inl e, s')
                     | Inr c2 \<Rightarrow> write_block s' REG_FILTERS c2 w))))"

definition set_i2c_address :: "MiniScale \<Rightarrow> int \<Rightarrow> exn option \<Rightarrow> (exn + int) \<times> MiniScale" where
  "set_i2c_address s new_addr w =
     (case write_block s REG_I2C_ADDRESS [new_addr AND 0x7F] w of
        (Inl e, s') \<Rightarrow> (Inl e, s')
      | (Inr _, s') \<Rightarrow> (Inr (new_addr AND 0x7F), s'\<lparr>addr := new_addr AND 0x7F\<rparr>))"

section \<open>The logger (mini\_scale\_logger.py)\<close>

definition BTN_SAMPLE_SECS :: real where "BTN_SAMPLE_SECS = 5 / 100"
definition BTN_AFTER_TARE_SLEEP :: real where "BTN_AFTER_TARE_SLEEP = 30 / 100"
definition BTN_WAIT_RELEASE :: bool where "BTN_WAIT_RELEASE = True"

subsection \<open>File names\<close>

text \<open>
  \<open>str.isalnum\<close> for one character. It is Unicode-aware: below 128 it holds of the
  ASCII letters and digits, from 128 to 255 of the Latin-1 letters, the superscript
  digits and the vulgar fractions. Above 255 the classification of CPython's Unicode
  database is the parameter \<open>wide\<close>.
\<close>

definition ascii_alnum :: "nat \<Rightarrow> bool" where
  "ascii_alnum c = (48 \<le> c \<and> c \<le> 57 \<or> 65 \<le> c \<and> c \<le> 90 \<or> 97 \<le> c \<and> c \<le> 122)"

definition latin1_alnum :: "nat \<Rightarrow> bool" where
  "latin1_alnum c =
     (c = 170 \<or> c = 178 \<or> c = 179 \<or> c = 181 \<or> c = 185 \<or> c = 186
      \<or> 188 \<le> c \<and> c \<le> 190 \<or> 192 \<le> c \<and> c \<le> 214
      \<or> 216 \<le> c \<and> c \<le> 246 \<or> 248 \<le> c \<and> c \<le> 255)"

definition isalnum :: "(nat \<Rightarrow> bool) \<Rightarrow> nat \<Rightarrow> bool" where
  "isalnum wide c =
     (if c < 128 then ascii_alnum c else if c < 256 then latin1_alnum c else wide c)"

definition sanitize_tag :: "(nat \<Rightarrow> bool) \<Rightarrow> pystr option \<Rightarrow> pystr" where
  "sanitize_tag wide tag =
     map (\<lambda>ch. if isalnum wide ch \<or> ch \<in> set (str ''-_'') then ch else of_char CHR ''_'')
       (case tag of None \<Rightarrow> [] | Some t \<Rightarrow> t)"

text \<open>\<open>os.path.join\<close> of two components, on POSIX.\<close>

definition os_path_join :: "pystr \<Rightarrow> pystr \<Rightarrow> pystr" where
  "os_path_join a b =
     (if prefix (str ''/'') b then b
      else if a = [] \<or> suffix (str ''/'') a then a @ b
      else a @ str ''/'' @ b)"

text \<open>\<open>day\<close> is \<open>datetime.now().strftime("%Y-%m-%d")\<close>, read from the clock.\<close>

definition today_path :: "(nat \<Rightarrow> bool) \<Rightarrow> pystr \<Rightarrow> pystr option \<Rightarrow> pystr \<Rightarrow> pystr" where
  "today_path wide data_dir name day =
     (let tag = sanitize_tag wide name;
          base = str ''weight_data_'' @ (if tag \<noteq> [] then tag @ str ''_'' else [])
                   @ day @ str ''.csv''
      in os_path_join data_dir base)"

subsection \<open>The header of a log file\<close>

definition HEADER :: pystr where
  "HEADER = str ''Time,Weight_g,Weight_x100_g,RawADC''"

text \<open>The line \<open>csv.writer\<close> writes for the header row: the default dialect ends it CR LF.\<close>

definition header_row :: pystr where
  "header_row = HEADER @ [13, 10]"

text \<open>
  \<open>fp.readline()\<close> from the start of a file opened with \<open>newline=""\<close>: a line ends
  at LF, CR or CR LF, and the ending is returned untranslated.
\<close>

fun readline :: "pystr \<Rightarrow> pystr" where
  "readline [] = []"
| "readline (c # cs) =
     (if c = 10 then [10]
      else if c = 13 then (if prefix [10] cs then [13, 10] else [13])
      else c # readline cs)"

text \<open>
  \<open>ensure_header\<close>, on the content of the file: the file is open in append mode, so
  the header goes to the end. \<open>sublist\<close> is Python's \<open>in\<close> on strings.
\<close>

definition ensure_header :: "pystr \<Rightarrow> pystr" where
  "ensure_header content =
     (let needs = (content = []);
          needs = (if \<not> needs then \<not> sublist HEADER (readline content) else needs)
      in if needs then content @ header_row else content)"

subsection \<open>The sampling loop\<close>

record args =
  data_dir :: pystr
  name :: "pystr option"
  interval :: real
  sign :: real

text \<open>
  The state of \<open>main\<close> while the loop runs. \<open>fs\<close> is the content of every file by
  path, empty for a file that does not exist yet (opening with \<open>"a+"\<close> creates it).
  File operations are taken to succeed; what \<open>--print\<close> writes to the terminal is left
  out.
\<close>

record logger =
  scale :: MiniScale
  fs :: "pystr \<Rightarrow> pystr"
  current_path :: pystr
  prev_pressed :: bool
  last_sample_time :: real

text \<open>
  What one iteration reads from outside: the date and the timestamp of the clock, the
  answers of the bus to the three sensor reads (each used only if that read is made),
  \<open>time.time()\<close> before the button check, and the answer of the bus to a tare write
  (used only if one is made). Clock readings and durations are real numbers.
\<close>

record tick_in =
  day :: pystr
  ts :: pystr
  f32 :: reply
  x100 :: reply
  adc :: reply
  now :: real
  tare_ack :: "exn option"

definition sleep :: "real \<Rightarrow> MiniScale \<Rightarrow> MiniScale" where
  "sleep d s = s\<lparr>trace := trace s @ [Sleep d]\<rparr>"

text \<open>Opening the log file of a path and securing its header.\<close>

definition open_log :: "pystr \<Rightarrow> logger \<Rightarrow> logger" where
  "open_log path L =
     L\<lparr>current_path := path, fs := (fs L)(path := ensure_header (fs L path))\<rparr>"

text \<open>
  The state before the first iteration. \<open>s\<close> is the driver after the optional
  start-up writes (gap, filters, tare on start), which are not part of the loop.
\<close>

definition start ::
  "(nat \<Rightarrow> bool) \<Rightarrow> args \<Rightarrow> pystr \<Rightarrow> MiniScale \<Rightarrow> (pystr \<Rightarrow> pystr) \<Rightarrow> logger" where
  "start wide a d s files =
     open_log (today_path wide (data_dir a) (name a) d)
       \<lparr>scale = s, fs = files, current_path = [], prev_pressed = False,
        last_sample_time = 0\<rparr>"

text \<open>Rotation at a change of date.\<close>

definition rotate :: "(nat \<Rightarrow> bool) \<Rightarrow> args \<Rightarrow> pystr \<Rightarrow> logger \<Rightarrow> logger" where
  "rotate wide a d L =
     (let new_path = today_path wide (data_dir a) (name a) d
      in if new_path \<noteq> current_path L then open_log new_path L else L)"

text \<open>
  The three reads under one \<open>try\<close>: the first exception abandons the remaining reads
  and gives the sentinel values.
\<close>

definition read_weights ::
  "real \<Rightarrow> reply \<Rightarrow> reply \<Rightarrow> reply \<Rightarrow> MiniScale \<Rightarrow> (pyfloat \<times> pyfloat \<times> int) \<times> MiniScale" where
  "read_weights sg rf ri ra s =
     (case get_weight_float s rf of
        (Inl e, s1) \<Rightarrow> ((NaN, NaN, - 1), s1)
      | (Inr f, s1) \<Rightarrow>
          (case get_weight_int s1 ri of
             (Inl e, s2) \<Rightarrow> ((NaN, NaN, - 1), s2)
           | (Inr g, s2) \<Rightarrow>
               (case get_raw_adc s2 ra of
                  (Inl e, s3) \<Rightarrow> ((NaN, NaN, - 1), s3)
                | (Inr n, s3) \<Rightarrow> ((Times f sg, Times g sg, n), s3))))"

text \<open>
  \<open>writer.writerow\<close> and \<open>fp.flush\<close>. \<open>csv_line\<close> is the text \<open>csv.writer\<close>
  produces for a row whose weights are formatted to three decimals.
\<close>

definition write_row :: "(row \<Rightarrow> pystr) \<Rightarrow> row \<Rightarrow> logger \<Rightarrow> logger" where
  "write_row csv_line r L =
     L\<lparr>fs := (fs L)(current_path L := fs L (current_path L) @ csv_line r),
       scale := (scale L)\<lparr>trace := trace (scale L) @ [CsvRow (current_path L) r]\<rparr>\<rparr>"

text \<open>
  The wait for the release of the button. \<open>polls\<close> are the answers of the bus to the
  button reads still to come; the result is \<open>None\<close> when they run out while the button
  still reads pressed, so that the wait has not returned.
\<close>

fun wait_release :: "MiniScale \<Rightarrow> reply list \<Rightarrow> MiniScale \<times> reply list option" where
  "wait_release s [] = (s, None)"
| "wait_release s (r # rs) =
     (case get_button_pressed s r of
        (Inl e, s') \<Rightarrow> (s', Some rs)
      | (Inr pressed, s') \<Rightarrow>
          if \<not> pressed then (s', Some rs)
          else wait_release (sleep BTN_SAMPLE_SECS s') rs)"

text \<open>
  One button poll and the tare it may trigger. \<open>w\<close> is the answer of the bus to the
  tare write. The result is \<open>None\<close> when the answers run out before the section ends.
\<close>

definition poll_and_tare ::
  "exn option \<Rightarrow> reply list \<Rightarrow> logger \<Rightarrow> logger \<times> reply list option" where
  "poll_and_tare w polls L =
     (case polls of
        [] \<Rightarrow> (L, None)
      | r # rs \<Rightarrow>
          (let (res, s1) = get_button_pressed (scale L) r;
               pressed = (case res of Inl e \<Rightarrow> False | Inr b \<Rightarrow> b)
           in if pressed \<and> \<not> prev_pressed L then
                (case tare s1 w of
                   (Inl e, s2) \<Rightarrow> (L\<lparr>scale := s2, prev_pressed := pressed\<rparr>, Some rs)
                 | (Inr u, s2) \<Rightarrow>
                     (let s3 = sleep BTN_AFTER_TARE_SLEEP s2
                      in if BTN_WAIT_RELEASE then
                           (case wait_release s3 rs of
                              (s4, None) \<Rightarrow> (L\<lparr>scale := s4\<rparr>, None)
                            | (s4, Some rest) \<Rightarrow>
                                (L\<lparr>scale := s4, prev_pressed := pressed\<rparr>, Some rest))
                         else (L\<lparr>scale := s3, prev_pressed := pressed\<rparr>, Some rs)))
              else (L\<lparr>scale := s1, prev_pressed := pressed\<rparr>, Some rs)))"

text \<open>The button check of one iteration, made when the poll period has elapsed.\<close>

definition button_tick ::
  "real \<Rightarrow> exn option \<Rightarrow> reply list \<Rightarrow> logger \<Rightarrow> logger \<times> reply list option" where
  "button_tick t w polls L =
     (if t - last_sample_time L \<ge> BTN_SAMPLE_SECS
      then poll_and_tare w polls (L\<lparr>last_sample_time := t\<rparr>)
      else (L, Some polls))"

text \<open>One iteration of the loop.\<close>

definition tick ::
  "(nat \<Rightarrow> bool) \<Rightarrow> (row \<Rightarrow> pystr) \<Rightarrow> args \<Rightarrow> tick_in \<Rightarrow> reply list \<Rightarrow> logger
     \<Rightarrow> logger \<times> reply list option" where
  "tick wide csv_line a i polls L =
     (let L1 = rotate wide a (day i) L;
          ((g_f32, g_i, n), s) = read_weights (sign a) (f32 i) (x100 i) (adc i) (scale L1);
          L2 = write_row csv_line
                 \<lparr>Time = ts i, Weight_g = g_f32, Weight_x100_g = g_i, RawADC = n\<rparr>
                 (L1\<lparr>scale := s\<rparr>)
      in case button_tick (now i) (tare_ack i) polls L2 of
           (L3, None) \<Rightarrow> (L3, None)
         | (L3, Some rest) \<Rightarrow>
             (L3\<lparr>scale := sleep (max 0 (interval a - BTN_SAMPLE_SECS)) (scale L3)\<rparr>,
              Some rest))"

text \<open>
  The loop, over the iterations made before the stop flag is seen set. It ends early,
  with \<open>None\<close>, in an iteration that does not return within the given button answers.
\<close>

fun main_loop ::
  "(nat \<Rightarrow> bool) \<Rightarrow> (row \<Rightarrow> pystr) \<Rightarrow> args \<Rightarrow> tick_in list \<Rightarrow> reply list \<Rightarrow> logger
     \<Rightarrow> logger \<times> reply list option" where
  "main_loop wide csv_line a [] polls L = (L, Some polls)"
| "main_loop wide csv_line a (i # is) polls L =
     (case tick wide csv_line a i polls L of
        (L', None) \<Rightarrow> (L', None)
      | (L', Some rest) \<Rightarrow> main_loop wide csv_line a is rest L')"

subsection \<open>Reading the trace\<close>

fun is_tare :: "effect \<Rightarrow> bool" where
  "is_tare (BusWrite a reg p) = (reg = REG_OFFSET_TARE)"
| "is_tare _ = False"

fun is_poll :: "effect \<Rightarrow> bool" where
  "is_poll (BusRead a reg n) = (reg = REG_BUTTON)"
| "is_poll _ = False"

fun is_row :: "effect \<Rightarrow> bool" where
  "is_row (CsvRow p r) = True"
| "is_row _ = False"

text \<open>The number of \<open>tare()\<close> calls and of button reads so far, and the rows written.\<close>

definition tares :: "logger \<Rightarrow> nat" where
  "tares L = length (filter is_tare (trace (scale L)))"

definition polls_made :: "logger \<Rightarrow> nat" where
  "polls_made L = length (filter is_poll (trace (scale L)))"

fun rows_of :: "effect list \<Rightarrow> row list" where
  "rows_of [] = []"
| "rows_of (CsvRow p r # es) = r # rows_of es"
| "rows_of (e # es) = rows_of es"

definition rows :: "logger \<Rightarrow> row list" where
  "rows L = rows_of (trace (scale L))"

section \<open>What the specification speaks of\<close>

text \<open>
  One of the three reads of an iteration fails: the bus raises on a read that is made,
  or the float buffer has the wrong size.
\<close>

definition reads_fail :: "tick_in \<Rightarrow> bool" where
  "reads_fail i =
     (case f32 i of
        Inl e \<Rightarrow> True
      | Inr b \<Rightarrow> length b \<noteq> 4 \<or> isl (x100 i) \<or> isl (adc i))"

text \<open>
  The row an iteration is expected to write: the sentinels after a failed read, the
  decoded readings times the sign otherwise.
\<close>

definition sample_row :: "real \<Rightarrow> tick_in \<Rightarrow> row" where
  "sample_row sg i =
     (if reads_fail i
      then \<lparr>Time = ts i, Weight_g = NaN, Weight_x100_g = NaN, RawADC = - 1\<rparr>
      else \<lparr>Time = ts i,
            Weight_g = Times (FromF32 (projr (f32 i))) sg,
            Weight_x100_g = Times (IntDiv100 (from_bytes_le_signed (projr (x100 i)))) sg,
            RawADC = from_bytes_le_signed (projr (adc i))\<rparr>)"

text \<open>A button answer that reads pressed: a first byte of 0.\<close>

definition reads_pressed :: "reply \<Rightarrow> bool" where
  "reads_pressed r = (case r of Inl e \<Rightarrow> False | Inr [] \<Rightarrow> False | Inr (v # bs) \<Rightarrow> v = 0)"






text \<open>The character set \<open>[A-Za-z0-9_-]\<close> of the specification.\<close>

definition spec_tag_char :: "nat \<Rightarrow> bool" where
  "spec_tag_char c =
     (c \<in> set (str ''ABCDEFGHIJKLMNOPQRSTUVWXYZabcdefghijklmnopqrstuvwxyz0123456789_-''))"

text \<open>
  The rising edges of a sequence of button readings: a reading pressed right after a
  reading not pressed, \<open>prev\<close> being the reading before the first.
\<close>

fun spec_rising_edges :: "bool \<Rightarrow> bool list \<Rightarrow> nat" where
  "spec_rising_edges prev [] = 0"
| "spec_rising_edges prev (p # ps) = (if p \<and> \<not> prev then 1 else 0) + spec_rising_edges p ps"

section \<open>Scenarios\<close>

text \<open>
  Concrete inputs for the closed theorems. The button register answers 0 when pressed
  and 1 when released. \<open>sample_tick t\<close> is an iteration at clock reading \<open>t\<close> whose
  sensor reads succeed (25.0 as float32, 2500 as grams times 100, raw count 1) and whose
  tare write, if any, is accepted; in \<open>failed_tick t\<close> the second read raises.
  \<open>demo_start\<close> is the state before the first iteration with the default address, an
  interval of one second and an empty file system. The scenarios use no character above
  255 and do not look at the text of the files, so they run with \<open>\<lambda>c. False\<close> for the
  wide characters and \<open>\<lambda>r. []\<close> for the CSV text of a row.
\<close>

definition pressed :: reply where "pressed = Inr [0]"
definition released :: reply where "released = Inr [1]"

definition sample_tick :: "real \<Rightarrow> tick_in" where
  "sample_tick t =
     \<lparr>day = str ''2025-08-05'', ts = str ''T'', f32 = Inr [0, 0, 200, 65],
      x100 = Inr [196, 9, 0, 0], adc = Inr [1, 0, 0, 0], now = t, tare_ack = None\<rparr>"

definition failed_tick :: "real \<Rightarrow> tick_in" where
  "failed_tick t = (sample_tick t)\<lparr>x100 := Inl OSError\<rparr>"

definition demo_args :: args where
  "demo_args = \<lparr>data_dir = str ''data'', name = None, interval = 1, sign = 1\<rparr>"

definition demo_start :: logger where
  "demo_start =
     start (\<lambda>c. False) demo_args (str ''2025-08-05'') \<lparr>addr = 0x26, trace = []\<rparr> (\<lambda>p. [])"

text \<open>
  \<open>demo_csv\<close> stands for the CSV text of a row, telling the sentinels from other
  values; \<open>mixed_ticks\<close> are four iterations in which the scaled read, the float read,
  the raw read and no read fail.
\<close>

definition demo_csv :: "row \<Rightarrow> pystr" where
  "demo_csv r =
     Time r @ str '',''
     @ (if Weight_g r = NaN then str ''nan'' else str ''w'') @ str '',''
     @ (if Weight_x100_g r = NaN then str ''nan'' else str ''w'') @ str '',''
     @ (if RawADC r = - 1 then str ''-1'' else str ''n'') @ [13, 10]"

definition mixed_ticks :: "tick_in list" where
  "mixed_ticks =
     [failed_tick 100, (sample_tick 101)\<lparr>f32 := Inl OSError\<rparr>,
      (sample_tick 102)\<lparr>adc := Inl OSError\<rparr>, sample_tick 103]"

lemmas eval_defs =
  tick_def rotate_def today_path_def sanitize_tag_def os_path_join_def
  open_log_def start_def read_weights_def get_weight_float_def get_weight_int_def
  get_raw_adc_def read_block_def write_block_def write_row_def button_tick_def
  poll_and_tare_def get_button_pressed_def tare_def sleep_def
  BTN_SAMPLE_SECS_def BTN_AFTER_TARE_SLEEP_def BTN_WAIT_RELEASE_def
  pressed_def released_def sample_tick_def failed_tick_def demo_args_def demo_start_def
  tares_def REG_RAW_ADC_def REG_WEIGHT_F32_def REG_BUTTON_def REG_OFFSET_TARE_def
  REG_WEIGHT_X100_I32_def str_def Let_def


section \<open>Properties of the driver\<close>

lemma and_7F_mod: "(k::int) AND 0x7F = k mod 128"
proof -
  have "(0x7F::int) = mask 7" by (simp add: mask_eq_exp_minus_1)
  then have "k AND 0x7F = take_bit 7 k" by (simp only: take_bit_eq_mask)
  then show ?thesis by (simp add: take_bit_eq_mod)
qed

text \<open>
  C6. Whatever byte \<open>v\<close> the button register returns, \<open>get_button_pressed\<close> answers
  \<open>True\<close> exactly when \<open>v\<close> is 0: true for 0, false for 1 and for every other nonzero
  byte.
\<close>

theorem button_pressed_iff_zero:
  "fst (get_button_pressed s (Inr (v # bs))) = Inr (v = 0)
   \<and> fst (get_button_pressed s (Inr [0])) = Inr True
   \<and> fst (get_button_pressed s (Inr [1])) = Inr False"
  by (simp add: get_button_pressed_def read_block_def)

text \<open>
  C5. Against a current filter block of three bytes, \<open>set_filters\<close> reads the block and
  writes back three bytes: a field the caller supplied holds the supplied value (its low
  eight bits), a field the caller left out holds the byte just read. Updating only the
  averaging level to 20 against \<open>[1, 10, 10]\<close> writes \<open>[1, 20, 10]\<close>.
\<close>

theorem set_filters_preserves_unspecified:
  "snd (set_filters s (Inr [b0, b1, b2]) w lp_enabled avg_level ema_alpha) =
     s\<lparr>trace := trace s @
        [BusRead (addr s) REG_FILTERS 3,
         BusWrite (addr s) REG_FILTERS
           [case lp_enabled of None \<Rightarrow> uint b0 | Some x \<Rightarrow> x AND 0xFF,
            case avg_level of None \<Rightarrow> uint b1 | Some x \<Rightarrow> x AND 0xFF,
            case ema_alpha of None \<Rightarrow> uint b2 | Some x \<Rightarrow> x AND 0xFF]]\<rparr>
   \<and> trace (snd (set_filters s (Inr [1, 10, 10]) w None (Some 20) None)) =
       trace s @ [BusRead (addr s) REG_FILTERS 3, BusWrite (addr s) REG_FILTERS [1, 20, 10]]"
  by (simp add: set_filters_def set_field_def read_block_def write_block_def
      split: option.split)

text \<open>
  C10. For every integer \<open>new_addr\<close>, \<open>set_i2c_address\<close> writes \<open>new_addr mod 128\<close> to
  the address register, at the address in use before the call; when the bus accepts the
  write, the client is rebound to \<open>new_addr mod 128\<close> and that value is returned. An
  address of 128 or more is cut to seven bits, not rejected: 200 becomes 72.
\<close>

theorem set_i2c_address_truncates:
  "set_i2c_address s new_addr None =
     (Inr (new_addr mod 128),
      \<lparr>addr = new_addr mod 128,
       trace = trace s @ [BusWrite (addr s) REG_I2C_ADDRESS [new_addr mod 128]]\<rparr>)
   \<and> trace (snd (set_i2c_address s new_addr w)) =
       trace s @ [BusWrite (addr s) REG_I2C_ADDRESS [new_addr mod 128]]
   \<and> set_i2c_address \<lparr>addr = 0x26, trace = []\<rparr> 200 None =
       (Inr 72, \<lparr>addr = 72, trace = [BusWrite 0x26 REG_I2C_ADDRESS [72]]\<rparr>)"
  by (simp add: set_i2c_address_def write_block_def and_7F_mod split: option.split)

subsection \<open>The calibration helper\<close>





























section \<open>Properties of the file name and of the header\<close>

lemma spec_tag_char_ascii: "spec_tag_char c \<longleftrightarrow> ascii_alnum c \<or> c = 45 \<or> c = 95"
  unfolding spec_tag_char_def ascii_alnum_def str_def
  by (simp, arith)

lemma kept_ascii:
  "c < 128 \<Longrightarrow> (isalnum wide c \<or> c \<in> set (str ''-_'')) = spec_tag_char c"
  by (auto simp: isalnum_def spec_tag_char_ascii str_def)

text \<open>
  C7, as stated, fails: the letter e with acute accent (code point 233) lies outside
  \<open>[A-Za-z0-9_-]\<close>, yet \<open>str.isalnum\<close> holds of it, so the tag made of it is kept and
  the file name is not the one with the character replaced by an underscore.
\<close>

theorem latin1_letter_kept:
  "today_path (\<lambda>c. False) (str ''data'') (Some [233]) (str ''2025-08-05'')
     = str ''data/weight_data_'' @ [233] @ str ''_2025-08-05.csv''
   \<and> \<not> spec_tag_char 233
   \<and> today_path (\<lambda>c. False) (str ''data'') (Some [233]) (str ''2025-08-05'')
     \<noteq> str ''data/weight_data_''
          @ map (\<lambda>c. if spec_tag_char c then c else of_char CHR ''_'') [233]
          @ str ''_2025-08-05.csv''"
  by (simp add: today_path_def sanitize_tag_def isalnum_def latin1_alnum_def os_path_join_def
      str_def spec_tag_char_def Let_def suffix_to_prefix)

text \<open>
  C7, amended. For every name tag the log file is named \<open>weight_data_\<close>, then the
  sanitized tag and an underscore (both left out when the tag is absent or empty), then
  the date and \<open>.csv\<close>, inside the data directory. In the sanitized tag every character
  that is neither alphanumeric for \<open>str.isalnum\<close> nor a hyphen nor an underscore has
  been replaced by an underscore; among the ASCII characters (below 128) the characters
  kept are exactly those of \<open>[A-Za-z0-9_-]\<close>.
\<close>

theorem today_path_name:
  "today_path wide dir tag d =
     os_path_join dir
       (str ''weight_data_''
        @ (case tag of
             None \<Rightarrow> []
           | Some t \<Rightarrow>
               if t = [] then []
               else map (\<lambda>c. if isalnum wide c \<or> c = of_char CHR ''-'' \<or> c = of_char CHR ''_''
                               then c else of_char CHR ''_'') t @ str ''_'')
        @ d @ str ''.csv'')
   \<and> (\<forall>c<128. (isalnum wide c \<or> c = of_char CHR ''-'' \<or> c = of_char CHR ''_'')
                 = spec_tag_char c)"
proof
  show "today_path wide dir tag d =
     os_path_join dir
       (str ''weight_data_''
        @ (case tag of
             None \<Rightarrow> []
           | Some t \<Rightarrow>
               if t = [] then []
               else map (\<lambda>c. if isalnum wide c \<or> c = of_char CHR ''-'' \<or> c = of_char CHR ''_''
                               then c else of_char CHR ''_'') t @ str ''_'')
        @ d @ str ''.csv'')"
    by (cases tag) (auto simp: today_path_def sanitize_tag_def Let_def str_def)
  show "\<forall>c<128. (isalnum wide c \<or> c = of_char CHR ''-'' \<or> c = of_char CHR ''_'')
                  = spec_tag_char c"
    using kept_ascii [of _ wide] by (simp add: str_def)
qed

text \<open>
  The tag \<open>hive 7\<close> gives \<open>weight_data_hive_7_2025-08-05.csv\<close>: the space, an ASCII
  character outside the set, is replaced.
\<close>

theorem today_path_name_witness:
  "today_path (\<lambda>c. False) (str ''data'') (Some (str ''hive 7'')) (str ''2025-08-05'')
     = str ''data/weight_data_hive_7_2025-08-05.csv''
   \<and> (32::nat) < 128 \<and> \<not> spec_tag_char 32"
proof -
  note t = today_path_name
             [of "\<lambda>c. False" "str ''data''" "Some (str ''hive 7'')" "str ''2025-08-05''"]
  have "today_path (\<lambda>c. False) (str ''data'') (Some (str ''hive 7'')) (str ''2025-08-05'')
          = str ''data/weight_data_hive_7_2025-08-05.csv''"
    using t [THEN conjunct1]
    by (simp add: str_def os_path_join_def isalnum_def ascii_alnum_def suffix_to_prefix)
  moreover have "\<not> spec_tag_char 32"
    using t [THEN conjunct2, rule_format, of 32]
    by (simp add: isalnum_def ascii_alnum_def)
  ultimately show ?thesis by simp
qed

lemma readline_header: "readline (header_row @ rest) = header_row"
  by (simp add: header_row_def HEADER_def str_def)

lemma sublist_header_row: "sublist HEADER header_row"
  unfolding header_row_def by (rule prefix_imp_sublist) simp

text \<open>
  C4, as stated, fails: a file whose first line is \<open>#\<close> followed by the header text does
  not start with the header, and yet no header is written, because the header text
  occurs inside the first line.
\<close>

theorem header_inside_first_line:
  "str ''#'' @ header_row \<noteq> []
   \<and> \<not> prefix HEADER (readline (str ''#'' @ header_row))
   \<and> ensure_header (str ''#'' @ header_row) = str ''#'' @ header_row"
  by (simp add: ensure_header_def header_row_def HEADER_def str_def Let_def sublist_code(3))

text \<open>
  C4, amended. For every file content, \<open>ensure_header\<close> appends the header line once
  when the file is empty or the header text does not occur anywhere in its first line,
  and leaves the file as it is otherwise. An empty file gets the header line as its only
  content, before any row; a file that starts with the exact header line gets nothing.
\<close>

theorem ensure_header_once:
  "ensure_header content =
     (if content = [] \<or> \<not> sublist HEADER (readline content)
      then content @ header_row else content)
   \<and> ensure_header [] = header_row
   \<and> ensure_header (header_row @ rest) = header_row @ rest"
proof -
  have "header_row \<noteq> []" by (simp add: header_row_def)
  then show ?thesis
    by (simp add: ensure_header_def Let_def readline_header sublist_header_row)
qed

text \<open>A file holding one row and no header gets the header after that row.\<close>

theorem ensure_header_once_witness:
  "ensure_header (str ''1,2'' @ [10]) = str ''1,2'' @ [10] @ header_row
   \<and> \<not> sublist HEADER (readline (str ''1,2'' @ [10]))"
  using ensure_header_once [of "str ''1,2'' @ [10]"]
  by (simp add: HEADER_def str_def sublist_code(3))

section \<open>Properties of the sampling loop\<close>

subsection \<open>Rows\<close>

lemma rows_of_append: "rows_of (xs @ ys) = rows_of xs @ rows_of ys"
  by (induction xs rule: rows_of.induct) simp_all

lemma rows_of_get_button: "rows_of (trace (snd (get_button_pressed s r))) = rows_of (trace s)"
  by (simp add: get_button_pressed_def read_block_def rows_of_append
      split: sum.split list.split)

lemma rows_of_wait_release: "rows_of (trace (fst (wait_release s polls))) = rows_of (trace s)"
proof (induction polls arbitrary: s)
  case Nil
  show ?case by simp
next
  case (Cons r rs)
  obtain res s' where g: "get_button_pressed s r = (res, s')" by (cases "get_button_pressed s r")
  have t: "rows_of (trace s') = rows_of (trace s)"
    using rows_of_get_button [of s r] g by simp
  show ?case
  proof (cases res)
    case (Inl e)
    with g t show ?thesis by simp
  next
    case (Inr p)
    with g t Cons.IH [of "sleep BTN_SAMPLE_SECS s'"] show ?thesis
      by (simp add: sleep_def rows_of_append)
  qed
qed

lemma rows_poll_and_tare: "rows (fst (poll_and_tare w polls L)) = rows L"
proof (cases polls)
  case Nil
  then show ?thesis by (simp add: poll_and_tare_def)
next
  case (Cons r rs)
  obtain res s1 where g: "get_button_pressed (scale L) r = (res, s1)"
    by (cases "get_button_pressed (scale L) r")
  have t1: "rows_of (trace s1) = rows_of (trace (scale L))"
    using rows_of_get_button [of "scale L" r] g by simp
  obtain s4 q where wr: "wait_release (sleep BTN_AFTER_TARE_SLEEP (snd (tare s1 w))) rs = (s4, q)"
    by (cases "wait_release (sleep BTN_AFTER_TARE_SLEEP (snd (tare s1 w))) rs")
  have t4: "rows_of (trace s4) = rows_of (trace s1)"
    using rows_of_wait_release [of "sleep BTN_AFTER_TARE_SLEEP (snd (tare s1 w))" rs] wr
    by (simp add: sleep_def tare_def write_block_def rows_of_append)
  have t2: "rows_of (trace (snd (tare s1 w))) = rows_of (trace s1)"
    by (simp add: tare_def write_block_def rows_of_append)
  show ?thesis
    using Cons g t1 t2 t4 wr
    by (cases w; cases q)
       (auto simp: poll_and_tare_def rows_def Let_def BTN_WAIT_RELEASE_def tare_def write_block_def
             sleep_def rows_of_append split: sum.split)
qed


lemma rows_button_tick: "rows (fst (button_tick t w polls L)) = rows L"
  using rows_poll_and_tare [of w polls "L\<lparr>last_sample_time := t\<rparr>"]
  by (simp add: button_tick_def rows_def)

lemma rows_of_read_weights:
  "rows_of (trace (snd (read_weights sg rf ri ra s))) = rows_of (trace s)"
  by (simp add: read_weights_def get_weight_float_def get_weight_int_def get_raw_adc_def
      read_block_def rows_of_append split: sum.split)

lemma fst_read_weights:
  "fst (read_weights sg (f32 i) (x100 i) (adc i) s) =
     (Weight_g (sample_row sg i), Weight_x100_g (sample_row sg i), RawADC (sample_row sg i))"
  by (simp add: read_weights_def get_weight_float_def get_weight_int_def get_raw_adc_def
      read_block_def sample_row_def reads_fail_def split: sum.split)

lemma rows_rotate: "rows (rotate wide a d L) = rows L"
  by (simp add: rotate_def open_log_def rows_def Let_def)

lemma rows_tick: "rows (fst (tick wide csv_line a i polls L)) = rows L @ [sample_row (sign a) i]"
proof -
  define L1 where "L1 = rotate wide a (day i) L"
  define rw where "rw = read_weights (sign a) (f32 i) (x100 i) (adc i) (scale L1)"
  define r where "r = \<lparr>Time = ts i, Weight_g = fst (fst rw), Weight_x100_g = fst (snd (fst rw)),
                        RawADC = snd (snd (fst rw))\<rparr>"
  define L2 where "L2 = write_row csv_line r (L1\<lparr>scale := snd rw\<rparr>)"
  have r_eq: "r = sample_row (sign a) i"
    using fst_read_weights [of "sign a" i "scale L1"]
    by (simp add: r_def rw_def sample_row_def)
  have "rows L2 = rows L1 @ [r]"
    using rows_of_read_weights [of "sign a" "f32 i" "x100 i" "adc i" "scale L1"]
    by (simp add: L2_def write_row_def rows_def rw_def rows_of_append)
  then have rows2: "rows L2 = rows L @ [sample_row (sign a) i]"
    by (simp add: L1_def rows_rotate r_eq)
  obtain L3 q where bt: "button_tick (now i) (tare_ack i) polls L2 = (L3, q)"
    by (cases "button_tick (now i) (tare_ack i) polls L2")
  have rows3: "rows L3 = rows L2"
    using rows_button_tick [of "now i" "tare_ack i" polls L2] bt by simp
  have "tick wide csv_line a i polls L =
          (case button_tick (now i) (tare_ack i) polls L2 of
             (L3, None) \<Rightarrow> (L3, None)
           | (L3, Some rest) \<Rightarrow>
               (L3\<lparr>scale := sleep (max 0 (interval a - BTN_SAMPLE_SECS)) (scale L3)\<rparr>, Some rest))"
    by (simp add: tick_def Let_def L2_def r_def rw_def L1_def split: prod.split)
  then show ?thesis
    using bt rows3 rows2
    by (cases q) (simp_all add: rows_def sleep_def rows_of_append)
qed

lemma rows_main_loop:
  "main_loop wide csv_line a ticks polls L = (L', Some rest)
   \<Longrightarrow> rows L' = rows L @ map (sample_row (sign a)) ticks"
proof (induction ticks arbitrary: polls L)
  case Nil
  then show ?case by simp
next
  case (Cons i ticks)
  obtain L1 q where t: "tick wide csv_line a i polls L = (L1, q)"
    by (cases "tick wide csv_line a i polls L")
  from Cons.prems t obtain rest1 where q: "q = Some rest1"
    by (cases q) simp_all
  from Cons.prems t q have "main_loop wide csv_line a ticks rest1 L1 = (L', Some rest)"
    by simp
  then have "rows L' = rows L1 @ map (sample_row (sign a)) ticks"
    by (rule Cons.IH)
  moreover have "rows L1 = rows L @ [sample_row (sign a) i]"
    using rows_tick [of wide csv_line a i polls L] t by simp
  ultimately show ?case by simp
qed


subsection \<open>Whether an iteration returns\<close>

lemma fst_get_button_pressed:
  "fst (get_button_pressed s r) = fst (get_button_pressed s' r)"
  by (simp add: get_button_pressed_def read_block_def split: sum.split list.split)

lemma snd_wait_release: "snd (wait_release s polls) = snd (wait_release s' polls)"
proof (induction polls arbitrary: s s')
  case Nil
  show ?case by simp
next
  case (Cons r rs)
  obtain res t where g: "get_button_pressed s r = (res, t)" by (cases "get_button_pressed s r")
  obtain res' t' where g': "get_button_pressed s' r = (res', t')"
    by (cases "get_button_pressed s' r")
  have "res' = res" using fst_get_button_pressed [of s r s'] g g' by simp
  with g' have g'': "get_button_pressed s' r = (res, t')" by simp
  show ?case
  proof (cases res)
    case (Inl e)
    with g g'' show ?thesis by simp
  next
    case (Inr p)
    with g g'' Cons.IH [of "sleep BTN_SAMPLE_SECS t" "sleep BTN_SAMPLE_SECS t'"]
    show ?thesis by simp
  qed
qed

lemma snd_poll_and_tare:
  assumes "prev_pressed L = prev_pressed L'"
  shows "snd (poll_and_tare w polls L) = snd (poll_and_tare w polls L')"
proof (cases polls)
  case Nil
  then show ?thesis by (simp add: poll_and_tare_def)
next
  case (Cons r rs)
  obtain res s1 where g: "get_button_pressed (scale L) r = (res, s1)"
    by (cases "get_button_pressed (scale L) r")
  obtain res' s1' where g': "get_button_pressed (scale L') r = (res', s1')"
    by (cases "get_button_pressed (scale L') r")
  have res: "res' = res" using fst_get_button_pressed [of "scale L" r "scale L'"] g g' by simp
  define s3 where "s3 = sleep BTN_AFTER_TARE_SLEEP (snd (tare s1 w))"
  define s3' where "s3' = sleep BTN_AFTER_TARE_SLEEP (snd (tare s1' w))"
  obtain s4 q where wr: "wait_release s3 rs = (s4, q)" by (cases "wait_release s3 rs")
  obtain s4' q' where wr': "wait_release s3' rs = (s4', q')" by (cases "wait_release s3' rs")
  have q: "q' = q" using snd_wait_release [of s3 rs s3'] wr wr' by simp
  show ?thesis
    using Cons g g' res wr wr' q assms
    by (cases w; cases q)
       (auto simp: poll_and_tare_def Let_def BTN_WAIT_RELEASE_def tare_def write_block_def
             s3_def s3'_def split: sum.split)
qed

lemma snd_button_tick:
  assumes "prev_pressed L = prev_pressed L'" and "last_sample_time L = last_sample_time L'"
  shows "snd (button_tick t w polls L) = snd (button_tick t w polls L')"
  using assms
    snd_poll_and_tare [of "L\<lparr>last_sample_time := t\<rparr>" "L'\<lparr>last_sample_time := t\<rparr>" w polls]
  by (simp add: button_tick_def)

lemma snd_tick:
  "snd (tick wide csv_line a i polls L) = snd (button_tick (now i) (tare_ack i) polls L)"
proof -
  define L1 where "L1 = rotate wide a (day i) L"
  define rw where "rw = read_weights (sign a) (f32 i) (x100 i) (adc i) (scale L1)"
  define r where "r = \<lparr>Time = ts i, Weight_g = fst (fst rw), Weight_x100_g = fst (snd (fst rw)),
                        RawADC = snd (snd (fst rw))\<rparr>"
  define L2 where "L2 = write_row csv_line r (L1\<lparr>scale := snd rw\<rparr>)"
  have same: "prev_pressed L2 = prev_pressed L" "last_sample_time L2 = last_sample_time L"
    by (simp_all add: L2_def write_row_def L1_def rotate_def open_log_def Let_def)
  obtain L3 q where bt: "button_tick (now i) (tare_ack i) polls L2 = (L3, q)"
    by (cases "button_tick (now i) (tare_ack i) polls L2")
  have "tick wide csv_line a i polls L =
          (case button_tick (now i) (tare_ack i) polls L2 of
             (L3, None) \<Rightarrow> (L3, None)
           | (L3, Some rest) \<Rightarrow>
               (L3\<lparr>scale := sleep (max 0 (interval a - BTN_SAMPLE_SECS)) (scale L3)\<rparr>, Some rest))"
    by (simp add: tick_def Let_def L2_def r_def rw_def L1_def split: prod.split)
  then have "snd (tick wide csv_line a i polls L) = q"
    using bt by (cases q) simp_all
  moreover have "snd (button_tick (now i) (tare_ack i) polls L2)
                 = snd (button_tick (now i) (tare_ack i) polls L)"
    using same by (rule snd_button_tick)
  ultimately show ?thesis using bt by simp
qed

lemma reads_pressed_iff: "reads_pressed r \<longleftrightarrow> fst (get_button_pressed s r) = Inr True"
  by (simp add: reads_pressed_def get_button_pressed_def read_block_def split: sum.split list.split)

lemma poll_and_tare_keeps:
  "fs (fst (poll_and_tare w polls L)) = fs L"
  "current_path (fst (poll_and_tare w polls L)) = current_path L"
  "last_sample_time (fst (poll_and_tare w polls L)) = last_sample_time L"
  by (auto simp: poll_and_tare_def Let_def split: list.split prod.split sum.split option.split)

lemma poll_and_tare_prev:
  assumes "prev_pressed L = prev_pressed L'"
  shows "prev_pressed (fst (poll_and_tare w polls L)) = prev_pressed (fst (poll_and_tare w polls L'))"
proof (cases polls)
  case Nil
  with assms show ?thesis by (simp add: poll_and_tare_def)
next
  case (Cons r rs)
  obtain res s1 where g: "get_button_pressed (scale L) r = (res, s1)"
    by (cases "get_button_pressed (scale L) r")
  obtain res' s1' where g': "get_button_pressed (scale L') r = (res', s1')"
    by (cases "get_button_pressed (scale L') r")
  have res: "res' = res" using fst_get_button_pressed [of "scale L" r "scale L'"] g g' by simp
  define s3 where "s3 = sleep BTN_AFTER_TARE_SLEEP (snd (tare s1 w))"
  define s3' where "s3' = sleep BTN_AFTER_TARE_SLEEP (snd (tare s1' w))"
  obtain s4 q where wr: "wait_release s3 rs = (s4, q)" by (cases "wait_release s3 rs")
  obtain s4' q' where wr': "wait_release s3' rs = (s4', q')" by (cases "wait_release s3' rs")
  have q: "q' = q" using snd_wait_release [of s3 rs s3'] wr wr' by simp
  show ?thesis
    using Cons g g' res wr wr' q assms
    by (cases w; cases q)
       (auto simp: poll_and_tare_def Let_def BTN_WAIT_RELEASE_def tare_def write_block_def
             s3_def s3'_def split: sum.split)
qed

lemma button_tick_keeps:
  "fs (fst (button_tick t w polls L)) = fs L"
  "current_path (fst (button_tick t w polls L)) = current_path L"
  by (simp_all add: button_tick_def poll_and_tare_keeps)

lemma button_tick_sim:
  assumes "prev_pressed L = prev_pressed L'" and "last_sample_time L = last_sample_time L'"
  shows "snd (button_tick t w polls L) = snd (button_tick t w polls L')"
    and "prev_pressed (fst (button_tick t w polls L)) = prev_pressed (fst (button_tick t w polls L'))"
    and "last_sample_time (fst (button_tick t w polls L))
           = last_sample_time (fst (button_tick t w polls L'))"
  using assms
    snd_poll_and_tare [of "L\<lparr>last_sample_time := t\<rparr>" "L'\<lparr>last_sample_time := t\<rparr>" w polls]
    poll_and_tare_prev [of "L\<lparr>last_sample_time := t\<rparr>" "L'\<lparr>last_sample_time := t\<rparr>" w polls]
  by (simp_all add: button_tick_def poll_and_tare_keeps)

lemma tick_unfold:
  "tick wide csv_line a i polls L =
     (let L2 = write_row csv_line (sample_row (sign a) i)
                 ((rotate wide a (day i) L)
                    \<lparr>scale := snd (read_weights (sign a) (f32 i) (x100 i) (adc i)
                                   (scale (rotate wide a (day i) L)))\<rparr>)
      in case button_tick (now i) (tare_ack i) polls L2 of
           (L3, None) \<Rightarrow> (L3, None)
         | (L3, Some rest) \<Rightarrow>
             (L3\<lparr>scale := sleep (max 0 (interval a - BTN_SAMPLE_SECS)) (scale L3)\<rparr>, Some rest))"
proof -
  define L1 where "L1 = rotate wide a (day i) L"
  define rw where "rw = read_weights (sign a) (f32 i) (x100 i) (adc i) (scale L1)"
  have r_eq: "\<lparr>Time = ts i, Weight_g = fst (fst rw), Weight_x100_g = fst (snd (fst rw)),
                RawADC = snd (snd (fst rw))\<rparr> = sample_row (sign a) i"
    using fst_read_weights [of "sign a" i "scale L1"]
    by (simp add: rw_def sample_row_def)
  show ?thesis
    unfolding tick_def Let_def L1_def [symmetric] rw_def [symmetric] r_eq [symmetric]
    by (simp split: prod.split)
qed

lemma tick_sim:
  assumes "prev_pressed L = prev_pressed L'" and "last_sample_time L = last_sample_time L'"
    and "now i = now j" and "tare_ack i = tare_ack j"
  shows "snd (tick wide csv_line a i polls L) = snd (tick wide' csv_line' a' j polls L')"
    and "prev_pressed (fst (tick wide csv_line a i polls L))
           = prev_pressed (fst (tick wide' csv_line' a' j polls L'))"
    and "last_sample_time (fst (tick wide csv_line a i polls L))
           = last_sample_time (fst (tick wide' csv_line' a' j polls L'))"
proof -
  define M where "M = write_row csv_line (sample_row (sign a) i)
                 ((rotate wide a (day i) L)
                    \<lparr>scale := snd (read_weights (sign a) (f32 i) (x100 i) (adc i)
                                   (scale (rotate wide a (day i) L)))\<rparr>)"
  define M' where "M' = write_row csv_line' (sample_row (sign a') j)
                 ((rotate wide' a' (day j) L')
                    \<lparr>scale := snd (read_weights (sign a') (f32 j) (x100 j) (adc j)
                                   (scale (rotate wide' a' (day j) L')))\<rparr>)"
  have same: "prev_pressed M = prev_pressed M'" "last_sample_time M = last_sample_time M'"
    using assms(1,2)
    by (simp_all add: M_def M'_def write_row_def rotate_def open_log_def Let_def)
  note bs = button_tick_sim [OF same, of "now i" "tare_ack i" polls]
  obtain L3 q where bt: "button_tick (now i) (tare_ack i) polls M = (L3, q)"
    by (cases "button_tick (now i) (tare_ack i) polls M")
  obtain L3' q' where bt': "button_tick (now j) (tare_ack j) polls M' = (L3', q')"
    by (cases "button_tick (now j) (tare_ack j) polls M'")
  from bs bt bt' assms(3,4)
  have eq: "q' = q" "prev_pressed L3 = prev_pressed L3'"
    "last_sample_time L3 = last_sample_time L3'"
    by simp_all
  have t: "tick wide csv_line a i polls L =
             (case q of None \<Rightarrow> (L3, None)
              | Some rest \<Rightarrow>
                  (L3\<lparr>scale := sleep (max 0 (interval a - BTN_SAMPLE_SECS)) (scale L3)\<rparr>, Some rest))"
    using bt by (simp add: tick_unfold M_def [symmetric] Let_def)
  have t': "tick wide' csv_line' a' j polls L' =
             (case q of None \<Rightarrow> (L3', None)
              | Some rest \<Rightarrow>
                  (L3'\<lparr>scale := sleep (max 0 (interval a' - BTN_SAMPLE_SECS)) (scale L3')\<rparr>, Some rest))"
    using bt' eq(1) by (simp add: tick_unfold M'_def [symmetric] Let_def)
  show "snd (tick wide csv_line a i polls L) = snd (tick wide' csv_line' a' j polls L')"
    and "prev_pressed (fst (tick wide csv_line a i polls L))
           = prev_pressed (fst (tick wide' csv_line' a' j polls L'))"
    and "last_sample_time (fst (tick wide csv_line a i polls L))
           = last_sample_time (fst (tick wide' csv_line' a' j polls L'))"
    using eq by (simp_all add: t t' split: option.split)
qed

lemma main_loop_sim:
  assumes "list_all2 (\<lambda>i j. now i = now j \<and> tare_ack i = tare_ack j) ticks ticks'"
    and "prev_pressed L = prev_pressed L'" and "last_sample_time L = last_sample_time L'"
  shows "snd (main_loop wide csv_line a ticks polls L)
           = snd (main_loop wide' csv_line' a' ticks' polls L')"
  using assms
proof (induction ticks ticks' arbitrary: polls L L' rule: list_all2_induct)
  case Nil
  show ?case by simp
next
  case (Cons i ticks j ticks')
  obtain L1 q where t: "tick wide csv_line a i polls L = (L1, q)"
    by (cases "tick wide csv_line a i polls L")
  obtain L1' q' where t': "tick wide' csv_line' a' j polls L' = (L1', q')"
    by (cases "tick wide' csv_line' a' j polls L'")
  from Cons.hyps(1) have ij: "now i = now j" "tare_ack i = tare_ack j" by simp_all
  note ts = tick_sim [OF Cons.prems(1) Cons.prems(2) ij, of wide csv_line a polls wide' csv_line' a']
  from ts t t' have eq: "q' = q" "prev_pressed L1 = prev_pressed L1'"
    "last_sample_time L1 = last_sample_time L1'" by simp_all
  show ?case
  proof (cases q)
    case None
    with t t' eq show ?thesis by simp
  next
    case (Some rest)
    with t t' eq Cons.IH [OF eq(2) eq(3), of rest] show ?thesis by simp
  qed
qed

lemma main_loop_reads_irrelevant:
  assumes "\<And>i. now (g i) = now i \<and> tare_ack (g i) = tare_ack i"
  shows "snd (main_loop wide csv_line a (map g ticks) polls L)
           = snd (main_loop wide csv_line a ticks polls L)"
proof -
  have "list_all2 (\<lambda>i j. now i = now j \<and> tare_ack i = tare_ack j) (map g ticks) ticks"
    using assms by (simp add: list_all2_map1 list_all2_same)
  then show ?thesis by (rule main_loop_sim) simp_all
qed


lemma get_button_pressed_cases:
  obtains e where "r = Inl e" | "r = Inr []" | v bs where "r = Inr (v # bs)"
proof (cases r)
  case (Inl e)
  then show ?thesis by (rule that(1))
next
  case (Inr b)
  then show ?thesis by (cases b) (auto intro: that)
qed

lemma quiet_poll_step:
  assumes "fst (get_button_pressed (scale L) r) \<noteq> Inr True \<or> prev_pressed L"
  shows "\<exists>p. poll_and_tare w (r # rs) L =
           (L\<lparr>scale := (scale L)\<lparr>trace := trace (scale L) @ [BusRead (addr (scale L)) REG_BUTTON 1]\<rparr>,
              prev_pressed := p\<rparr>, Some rs)"
  using assms
  by (cases r rule: get_button_pressed_cases)
     (auto simp: poll_and_tare_def get_button_pressed_def read_block_def)

lemma button_tick_idle:
  assumes "\<forall>r\<in>set polls. \<not> reads_pressed r" and "polls \<noteq> []"
  shows "snd (button_tick t w polls L) = Some polls \<or> snd (button_tick t w polls L) = Some (tl polls)"
proof (cases "t - last_sample_time L \<ge> BTN_SAMPLE_SECS")
  case False
  then show ?thesis by (simp add: button_tick_def)
next
  case True
  from assms(2) obtain r rs where p: "polls = r # rs" by (cases polls) auto
  let ?L = "L\<lparr>last_sample_time := t\<rparr>"
  from assms(1) p have "\<not> reads_pressed r" by simp
  then have "fst (get_button_pressed (scale ?L) r) \<noteq> Inr True \<or> prev_pressed ?L"
    using reads_pressed_iff [of r "scale ?L"] by simp
  from quiet_poll_step [OF this, of w rs] True p show ?thesis
    by (auto simp: button_tick_def)
qed

lemma main_loop_idle:
  assumes "\<forall>r\<in>set polls. \<not> reads_pressed r" and "length ticks \<le> length polls"
  shows "\<exists>rest. snd (main_loop wide csv_line a ticks polls L) = Some rest"
  using assms
proof (induction ticks arbitrary: polls L)
  case Nil
  show ?case by simp
next
  case (Cons i ticks)
  from Cons.prems(2) have ne: "polls \<noteq> []" by auto
  obtain L1 q where t: "tick wide csv_line a i polls L = (L1, q)"
    by (cases "tick wide csv_line a i polls L")
  have "q = snd (button_tick (now i) (tare_ack i) polls L)"
    using snd_tick [of wide csv_line a i polls L] t by simp
  with button_tick_idle [OF Cons.prems(1) ne, of "now i" "tare_ack i" L]
  have q: "q = Some polls \<or> q = Some (tl polls)" by simp
  then obtain rest where r: "q = Some rest" "rest = polls \<or> rest = tl polls" by auto
  have "set rest \<subseteq> set polls" using r(2) ne by (auto dest: list.set_sel(2))
  with Cons.prems(1) have idle: "\<forall>r\<in>set rest. \<not> reads_pressed r" by auto
  have len: "length ticks \<le> length rest" using r(2) Cons.prems(2) by auto
  from Cons.IH [OF idle len, of L1] t r(1) show ?case by simp
qed

lemma fs_tick:
  "current_path (fst (tick wide csv_line a i polls L)) = today_path wide (data_dir a) (name a) (day i)"
  "fs (fst (tick wide csv_line a i polls L)) (today_path wide (data_dir a) (name a) (day i)) =
     (if today_path wide (data_dir a) (name a) (day i) = current_path L
      then fs L (current_path L)
      else ensure_header (fs L (today_path wide (data_dir a) (name a) (day i))))
     @ csv_line (sample_row (sign a) i)"
proof -
  define p where "p = today_path wide (data_dir a) (name a) (day i)"
  define L1 where "L1 = rotate wide a (day i) L"
  define M where "M = write_row csv_line (sample_row (sign a) i)
                 (L1\<lparr>scale := snd (read_weights (sign a) (f32 i) (x100 i) (adc i) (scale L1))\<rparr>)"
  define X where "X = (if p = current_path L then fs L (current_path L)
                         else ensure_header (fs L p)) @ csv_line (sample_row (sign a) i)"
  have c1: "current_path L1 = p"
    by (simp add: L1_def rotate_def open_log_def Let_def p_def)
  have f1: "fs L1 p = (if p = current_path L then fs L (current_path L) else ensure_header (fs L p))"
    by (simp add: L1_def rotate_def open_log_def Let_def p_def)
  have m: "current_path M = p" "fs M p = X"
    using c1 f1 by (simp_all add: M_def write_row_def X_def)
  obtain L3 q where bt: "button_tick (now i) (tare_ack i) polls M = (L3, q)"
    by (cases "button_tick (now i) (tare_ack i) polls M")
  have k: "fs L3 p = X" "current_path L3 = p"
    using button_tick_keeps [of "now i" "tare_ack i" polls M] bt m by simp_all
  have t: "tick wide csv_line a i polls L =
             (case q of None \<Rightarrow> (L3, None)
              | Some rest \<Rightarrow>
                  (L3\<lparr>scale := sleep (max 0 (interval a - BTN_SAMPLE_SECS)) (scale L3)\<rparr>, Some rest))"
    using bt by (simp add: tick_unfold M_def L1_def Let_def)
  have "current_path (fst (tick wide csv_line a i polls L)) = p"
    and "fs (fst (tick wide csv_line a i polls L)) p = X"
    using k by (cases q; simp add: t)+
  then have "current_path (fst (tick wide csv_line a i polls L)) = p"
    and "fs (fst (tick wide csv_line a i polls L)) p =
           (if p = current_path L then fs L (current_path L) else ensure_header (fs L p))
           @ csv_line (sample_row (sign a) i)"
    by (simp_all only: X_def)
  then show
    "current_path (fst (tick wide csv_line a i polls L)) = today_path wide (data_dir a) (name a) (day i)"
    "fs (fst (tick wide csv_line a i polls L)) (today_path wide (data_dir a) (name a) (day i)) =
     (if today_path wide (data_dir a) (name a) (day i) = current_path L
      then fs L (current_path L)
      else ensure_header (fs L (today_path wide (data_dir a) (name a) (day i))))
     @ csv_line (sample_row (sign a) i)"
    by (simp_all add: p_def)
qed

text \<open>
  C2. In an iteration in which any of the three reads fails, the row of the iteration is
  still written, with not-a-number in both weight fields and \<open>- 1\<close> as raw count: it is
  in the trace, and its text is appended to the log file of the day (after the header
  when the file has just been opened). Every iteration writes exactly its row, whatever
  its reads did. Whether an iteration returns, and with which button answers left, is
  decided by its button check alone; the same holds of the whole loop: replacing the
  answers to the reads by any others, failures included, changes nothing to how far the
  loop gets. With a button that never reads pressed and an answer for every iteration,
  the loop comes back from all its iterations and has written one row for each of them,
  in order; and so has any run that comes back. A failed read ends nothing.
\<close>

theorem failed_read_sentinel_row:
  "(reads_fail i \<longrightarrow>
      rows (fst (tick wide csv_line a i polls L)) =
        rows L @ [\<lparr>Time = ts i, Weight_g = NaN, Weight_x100_g = NaN, RawADC = - 1\<rparr>])
   \<and> rows (fst (tick wide csv_line a i polls L)) = rows L @ [sample_row (sign a) i]
   \<and> fs (fst (tick wide csv_line a i polls L)) (today_path wide (data_dir a) (name a) (day i)) =
       (if today_path wide (data_dir a) (name a) (day i) = current_path L
        then fs L (current_path L)
        else ensure_header (fs L (today_path wide (data_dir a) (name a) (day i))))
       @ csv_line (sample_row (sign a) i)
   \<and> snd (tick wide csv_line a i polls L) = snd (button_tick (now i) (tare_ack i) polls L)
   \<and> (main_loop wide csv_line a ticks polls L = (L', Some rest) \<longrightarrow>
        rows L' = rows L @ map (sample_row (sign a)) ticks)
   \<and> ((\<forall>j. now (g j) = now j \<and> tare_ack (g j) = tare_ack j) \<longrightarrow>
        snd (main_loop wide csv_line a (map g ticks) polls L)
          = snd (main_loop wide csv_line a ticks polls L))
   \<and> ((\<forall>r\<in>set polls. \<not> reads_pressed r) \<and> length ticks \<le> length polls \<longrightarrow>
        (\<exists>M left. main_loop wide csv_line a ticks polls L = (M, Some left)
                   \<and> rows M = rows L @ map (sample_row (sign a)) ticks))"
proof -
  have idle: "\<exists>M left. main_loop wide csv_line a ticks polls L = (M, Some left)
                   \<and> rows M = rows L @ map (sample_row (sign a)) ticks"
    if "\<forall>r\<in>set polls. \<not> reads_pressed r" and "length ticks \<le> length polls"
  proof -
    from main_loop_idle [OF that, of wide csv_line a L]
    obtain left where "snd (main_loop wide csv_line a ticks polls L) = Some left" by blast
    then have m: "main_loop wide csv_line a ticks polls L
                    = (fst (main_loop wide csv_line a ticks polls L), Some left)"
      by (cases "main_loop wide csv_line a ticks polls L") simp
    from rows_main_loop [OF m] m show ?thesis by blast
  qed
  have sim: "snd (main_loop wide csv_line a (map g ticks) polls L)
          = snd (main_loop wide csv_line a ticks polls L)"
    if "\<forall>j. now (g j) = now j \<and> tare_ack (g j) = tare_ack j"
    using that by (intro main_loop_reads_irrelevant) simp
  show ?thesis
    using rows_tick [of wide csv_line a i polls L] snd_tick [of wide csv_line a i polls L]
      rows_main_loop [of wide csv_line a ticks polls L L' rest]
      fs_tick(2) [of wide csv_line a i polls L] idle sim
    by (simp add: sample_row_def)
qed


text \<open>
  Four iterations of which three have a failed read (the scaled, the float, the raw
  one): the loop comes back from all four with three sentinel rows and the row of the
  fourth, the file of the day holds the header and then the sentinel row of the first
  iteration, and failing every float read changes nothing to the outcome.
\<close>

theorem failed_read_sentinel_row_witness:
  "reads_fail (failed_tick 100)
   \<and> rows (fst (tick (\<lambda>c. False) demo_csv demo_args (failed_tick 100)
                  [released, released, released, released] demo_start)) =
       [\<lparr>Time = str ''T'', Weight_g = NaN, Weight_x100_g = NaN, RawADC = - 1\<rparr>]
   \<and> fs (fst (tick (\<lambda>c. False) demo_csv demo_args (failed_tick 100)
                [released, released, released, released] demo_start))
        (str ''data/weight_data_2025-08-05.csv'') =
       header_row @ str ''T,nan,nan,-1'' @ [13, 10]
   \<and> \<not> reads_pressed released
   \<and> length mixed_ticks \<le> length [released, released, released, released]
   \<and> snd (main_loop (\<lambda>c. False) demo_csv demo_args mixed_ticks
            [released, released, released, released] demo_start) = Some []
   \<and> rows (fst (main_loop (\<lambda>c. False) demo_csv demo_args mixed_ticks
            [released, released, released, released] demo_start)) =
       [\<lparr>Time = str ''T'', Weight_g = NaN, Weight_x100_g = NaN, RawADC = - 1\<rparr>,
        \<lparr>Time = str ''T'', Weight_g = NaN, Weight_x100_g = NaN, RawADC = - 1\<rparr>,
        \<lparr>Time = str ''T'', Weight_g = NaN, Weight_x100_g = NaN, RawADC = - 1\<rparr>,
        \<lparr>Time = str ''T'', Weight_g = Times (FromF32 [0, 0, 200, 65]) 1,
         Weight_x100_g = Times (IntDiv100 2500) 1, RawADC = 1\<rparr>]
   \<and> snd (main_loop (\<lambda>c. False) demo_csv demo_args
            (map (\<lambda>j. j\<lparr>f32 := Inl OSError\<rparr>) mixed_ticks)
            [released, released, released, released] demo_start) = Some []"
proof -
  let ?polls = "[released, released, released, released]"
  define run where "run = main_loop (\<lambda>c. False) demo_csv demo_args mixed_ticks ?polls demo_start"
  note inst = failed_read_sentinel_row [of "failed_tick 100" "\<lambda>c. False" demo_csv demo_args
        ?polls demo_start mixed_ticks "fst run" "[]" "\<lambda>j. j\<lparr>f32 := Inl OSError\<rparr>"]
  note c1 = inst [THEN conjunct1]
  note c3 = inst [THEN conjunct2, THEN conjunct2, THEN conjunct1]
  note c5 = inst [THEN conjunct2, THEN conjunct2, THEN conjunct2, THEN conjunct2, THEN conjunct1]
  note c6 = inst [THEN conjunct2, THEN conjunct2, THEN conjunct2, THEN conjunct2, THEN conjunct2,
                  THEN conjunct1]
  note c7 = inst [THEN conjunct2, THEN conjunct2, THEN conjunct2, THEN conjunct2, THEN conjunct2,
                  THEN conjunct2]
  have f: "reads_fail (failed_tick 100)"
    by (simp add: reads_fail_def failed_tick_def sample_tick_def)
  have e: "rows demo_start = []"
    by (simp add: demo_start_def start_def open_log_def rows_def)
  have t: "rows (fst (tick (\<lambda>c. False) demo_csv demo_args (failed_tick 100) ?polls demo_start)) =
       [\<lparr>Time = str ''T'', Weight_g = NaN, Weight_x100_g = NaN, RawADC = - 1\<rparr>]"
    using c1 f e by (simp add: failed_tick_def sample_tick_def)
  have p: "today_path (\<lambda>c. False) (data_dir demo_args) (name demo_args) (day (failed_tick 100))
             = str ''data/weight_data_2025-08-05.csv''"
    "current_path demo_start = str ''data/weight_data_2025-08-05.csv''"
    "fs demo_start (str ''data/weight_data_2025-08-05.csv'') = header_row"
    by (simp_all add: eval_defs suffix_to_prefix ensure_header_def)
  have sr: "sample_row (sign demo_args) (failed_tick 100)
              = \<lparr>Time = str ''T'', Weight_g = NaN, Weight_x100_g = NaN, RawADC = - 1\<rparr>"
    using f by (simp add: sample_row_def failed_tick_def sample_tick_def)
  have fcont: "fs (fst (tick (\<lambda>c. False) demo_csv demo_args (failed_tick 100) ?polls demo_start))
        (str ''data/weight_data_2025-08-05.csv'') = header_row @ str ''T,nan,nan,-1'' @ [13, 10]"
    using c3 unfolding p sr by (simp add: demo_csv_def str_def)
  have idle: "\<forall>r\<in>set ?polls. \<not> reads_pressed r"
    by (simp add: reads_pressed_def released_def)
  from c7 idle obtain M left where
    m: "run = (M, Some left)"
    and rw: "rows M = rows demo_start @ map (sample_row (sign demo_args)) mixed_ticks"
    unfolding run_def mixed_ticks_def by auto
  have s: "snd run = Some []"
    unfolding run_def by (simp add: eval_defs mixed_ticks_def)
  with m have r: "run = (fst run, Some [])" by simp
  have "rows (fst run) = rows demo_start @ map (sample_row (sign demo_args)) mixed_ticks"
    using c5 r unfolding run_def by simp
  then have rr: "rows (fst run) =
       [\<lparr>Time = str ''T'', Weight_g = NaN, Weight_x100_g = NaN, RawADC = - 1\<rparr>,
        \<lparr>Time = str ''T'', Weight_g = NaN, Weight_x100_g = NaN, RawADC = - 1\<rparr>,
        \<lparr>Time = str ''T'', Weight_g = NaN, Weight_x100_g = NaN, RawADC = - 1\<rparr>,
        \<lparr>Time = str ''T'', Weight_g = Times (FromF32 [0, 0, 200, 65]) 1,
         Weight_x100_g = Times (IntDiv100 2500) 1, RawADC = 1\<rparr>]"
    using e
    by (simp add: mixed_ticks_def sample_row_def reads_fail_def failed_tick_def sample_tick_def
        demo_args_def from_bytes_le_signed_def Let_def)
  have g: "snd (main_loop (\<lambda>c. False) demo_csv demo_args
            (map (\<lambda>j. j\<lparr>f32 := Inl OSError\<rparr>) mixed_ticks) ?polls demo_start) = Some []"
    using c6 s unfolding run_def by simp
  have np: "\<not> reads_pressed released" by (simp add: reads_pressed_def released_def)
  have ln: "length mixed_ticks \<le> length ?polls" by (simp add: mixed_ticks_def)
  from f t fcont np ln s rr g show ?thesis unfolding run_def by simp
qed

subsection \<open>Button and tare\<close>

lemma tares_get_button:
  "filter is_tare (trace (snd (get_button_pressed s r))) = filter is_tare (trace s)"
  by (simp add: get_button_pressed_def read_block_def REG_BUTTON_def split: sum.split list.split)

lemma tares_wait_release:
  "filter is_tare (trace (fst (wait_release s polls))) = filter is_tare (trace s)"
proof (induction polls arbitrary: s)
  case Nil
  show ?case by simp
next
  case (Cons r rs)
  obtain res s' where g: "get_button_pressed s r = (res, s')" by (cases "get_button_pressed s r")
  have t: "filter is_tare (trace s') = filter is_tare (trace s)"
    using tares_get_button [of s r] g by simp
  show ?case
  proof (cases res)
    case (Inl e)
    with g t show ?thesis by simp
  next
    case (Inr p)
    with g t Cons.IH [of "sleep BTN_SAMPLE_SECS s'"] show ?thesis
      by (simp add: sleep_def)
  qed
qed

lemma failed_poll_step:
  "poll_and_tare w (Inl e # rs) L =
     (L\<lparr>scale := (scale L)\<lparr>trace := trace (scale L) @ [BusRead (addr (scale L)) REG_BUTTON 1]\<rparr>,
        prev_pressed := False\<rparr>, Some rs)"
  by (simp add: poll_and_tare_def get_button_pressed_def read_block_def)

lemma rising_edge_tares:
  assumes "\<not> prev_pressed L"
  shows "tares (fst (poll_and_tare w (Inr (0 # bs) # rs) L)) = Suc (tares L)"
proof -
  define s1 where "s1 = (scale L)\<lparr>trace := trace (scale L) @ [BusRead (addr (scale L)) REG_BUTTON 1]\<rparr>"
  define s2 where "s2 = s1\<lparr>trace := trace s1 @ [BusWrite (addr s1) REG_OFFSET_TARE [1]]\<rparr>"
  have g: "get_button_pressed (scale L) (Inr (0 # bs)) = (Inr True, s1)"
    by (simp add: get_button_pressed_def read_block_def s1_def)
  have c2: "length (filter is_tare (trace s2)) = Suc (tares L)"
    by (simp add: s2_def s1_def tares_def REG_BUTTON_def)
  obtain s4 q where wr: "wait_release (sleep BTN_AFTER_TARE_SLEEP s2) rs = (s4, q)"
    by (cases "wait_release (sleep BTN_AFTER_TARE_SLEEP s2) rs")
  have c4: "length (filter is_tare (trace s4)) = Suc (tares L)"
    using tares_wait_release [of "sleep BTN_AFTER_TARE_SLEEP s2" rs] wr c2
    by (simp add: sleep_def)
  show ?thesis
    using assms g wr c2 c4
    by (cases w; cases q)
       (simp_all add: poll_and_tare_def tare_def write_block_def BTN_WAIT_RELEASE_def
          tares_def s2_def [symmetric])
qed


lemma failed_wait_poll_step:
  "poll_and_tare None (Inr (0 # bs) # Inl e # rs) (L\<lparr>prev_pressed := False\<rparr>) =
     (L\<lparr>scale := (scale L)\<lparr>trace := trace (scale L) @
          [BusRead (addr (scale L)) REG_BUTTON 1,
           BusWrite (addr (scale L)) REG_OFFSET_TARE [1],
           Sleep BTN_AFTER_TARE_SLEEP,
           BusRead (addr (scale L)) REG_BUTTON 1]\<rparr>,
        prev_pressed := True\<rparr>, Some rs)"
  by (simp add: poll_and_tare_def get_button_pressed_def read_block_def tare_def write_block_def
      sleep_def BTN_WAIT_RELEASE_def)

text \<open>
  C9, as stated, fails for a poll inside the wait for release. The first poll reads
  pressed and tares, the next poll, made by the wait, raises: the wait ends and the
  previous state recorded is pressed, not not-pressed. A pressed poll in the next
  iteration is then no edge, and the run has one tare only.
\<close>

theorem failed_wait_poll_keeps_pressed:
  "prev_pressed (fst (main_loop (\<lambda>c. False) (\<lambda>r. []) demo_args [sample_tick 100]
                        [pressed, Inl OSError] demo_start)) = True
   \<and> snd (main_loop (\<lambda>c. False) (\<lambda>r. []) demo_args [sample_tick 100]
            [pressed, Inl OSError] demo_start) = Some []
   \<and> tares (fst (main_loop (\<lambda>c. False) (\<lambda>r. []) demo_args [sample_tick 100, sample_tick 101]
                   [pressed, Inl OSError, pressed] demo_start)) = 1
   \<and> snd (main_loop (\<lambda>c. False) (\<lambda>r. []) demo_args [sample_tick 100, sample_tick 101]
            [pressed, Inl OSError, pressed] demo_start) = Some []"
  by (simp add: eval_defs)

text \<open>
  C9, amended. When the button poll of an iteration (the first poll of its button check)
  raises, the monitor records not pressed as the previous state of the button; a poll
  that raises inside the wait for release only ends the wait, after which pressed is
  recorded. So one failed poll of an iteration followed by a poll that reads pressed
  counts as a rising edge, whatever was recorded before, and one more tare is issued.
  This happens with the button held throughout: the first poll tares and the wait for
  release sees pressed, then a failure that ends the wait; the poll of the next
  iteration fails too, and the poll after it, still pressed, tares a second time. It
  also happens with a single failed poll, when the first tare write was refused by the
  bus, so that no wait for release was made.
\<close>

theorem failed_poll_rearms:
  "poll_and_tare w (Inl e # rs) L =
     (L\<lparr>scale := (scale L)\<lparr>trace := trace (scale L) @ [BusRead (addr (scale L)) REG_BUTTON 1]\<rparr>,
        prev_pressed := False\<rparr>, Some rs)
   \<and> poll_and_tare None (Inr (0 # bs) # Inl e # rs) (L\<lparr>prev_pressed := False\<rparr>) =
       (L\<lparr>scale := (scale L)\<lparr>trace := trace (scale L) @
            [BusRead (addr (scale L)) REG_BUTTON 1,
             BusWrite (addr (scale L)) REG_OFFSET_TARE [1],
             Sleep BTN_AFTER_TARE_SLEEP,
             BusRead (addr (scale L)) REG_BUTTON 1]\<rparr>,
          prev_pressed := True\<rparr>, Some rs)
   \<and> tares (fst (poll_and_tare w' (Inr (0 # bs) # rs')
                   (fst (poll_and_tare w (Inl e # rs) L)))) = Suc (tares L)
   \<and> tares (fst (main_loop (\<lambda>c. False) (\<lambda>r. []) demo_args
                   [sample_tick 100, sample_tick 101, sample_tick 102]
                   [pressed, pressed, Inl OSError, Inl OSError, pressed] demo_start)) = 2
   \<and> tares (fst (main_loop (\<lambda>c. False) (\<lambda>r. []) demo_args
                   [(sample_tick 100)\<lparr>tare_ack := Some OSError\<rparr>, sample_tick 101,
                    sample_tick 102]
                   [pressed, Inl OSError, pressed] demo_start)) = 2"
proof -
  let ?L1 = "L\<lparr>scale := (scale L)\<lparr>trace := trace (scale L) @ [BusRead (addr (scale L)) REG_BUTTON 1]\<rparr>,
        prev_pressed := False\<rparr>"
  have a: "poll_and_tare w (Inl e # rs) L = (?L1, Some rs)" by (rule failed_poll_step)
  have "tares (fst (poll_and_tare w' (Inr (0 # bs) # rs') ?L1)) = Suc (tares ?L1)"
    by (rule rising_edge_tares) simp
  moreover have "tares ?L1 = tares L" by (simp add: tares_def REG_BUTTON_def)
  ultimately have b: "tares (fst (poll_and_tare w' (Inr (0 # bs) # rs')
                   (fst (poll_and_tare w (Inl e # rs) L)))) = Suc (tares L)"
    using a by simp
  have c: "tares (fst (main_loop (\<lambda>c. False) (\<lambda>r. []) demo_args
                   [sample_tick 100, sample_tick 101, sample_tick 102]
                   [pressed, pressed, Inl OSError, Inl OSError, pressed] demo_start)) = 2"
    by (simp add: eval_defs)
  have d: "tares (fst (main_loop (\<lambda>c. False) (\<lambda>r. []) demo_args
                   [(sample_tick 100)\<lparr>tare_ack := Some OSError\<rparr>, sample_tick 101,
                    sample_tick 102]
                   [pressed, Inl OSError, pressed] demo_start)) = 2"
    by (simp add: eval_defs)
  from a failed_wait_poll_step [of bs e rs L] b c d show ?thesis by simp
qed


text \<open>
  C1 fails on the code. The sequence pressed, pressed, pressed, released gives one tare,
  as it has one rising edge. With a further pressed after the release the sequence has
  two rising edges and still gives one tare: the release is seen by the wait inside the
  first iteration, after which the previous state is set from the reading taken before
  the wait, pressed, so the next poll is not an edge.
\<close>

theorem repress_after_release_not_tared:
  "tares (fst (main_loop (\<lambda>c. False) (\<lambda>r. []) demo_args [sample_tick 100]
                 [pressed, pressed, pressed, released] demo_start)) = 1
   \<and> spec_rising_edges False [True, True, True, False] = 1
   \<and> tares (fst (main_loop (\<lambda>c. False) (\<lambda>r. []) demo_args [sample_tick 100, sample_tick 101]
                 [pressed, pressed, pressed, released, pressed] demo_start)) = 1
   \<and> snd (main_loop (\<lambda>c. False) (\<lambda>r. []) demo_args [sample_tick 100, sample_tick 101]
                 [pressed, pressed, pressed, released, pressed] demo_start) = Some []
   \<and> spec_rising_edges False [True, True, True, False, True] = 2"
  by (simp add: eval_defs)

subsection \<open>Polls and rows\<close>

lemma edge_poll_step:
  assumes "fst (get_button_pressed (scale L) r) = Inr True" and "\<not> prev_pressed L"
  shows "tares (fst (poll_and_tare w (r # rs) L)) = Suc (tares L)"
proof -
  from assms(1) obtain bs where "r = Inr (0 # bs)"
    by (cases r rule: get_button_pressed_cases)
       (auto simp: get_button_pressed_def read_block_def)
  with assms(2) show ?thesis by (simp add: rising_edge_tares)
qed

lemma poll_and_tare_one_read:
  assumes "tares (fst (poll_and_tare w polls L)) = tares L"
  shows "polls_made (fst (poll_and_tare w polls L)) \<le> Suc (polls_made L)"
proof (cases polls)
  case Nil
  then show ?thesis by (simp add: poll_and_tare_def)
next
  case (Cons r rs)
  show ?thesis
  proof (cases "fst (get_button_pressed (scale L) r) = Inr True \<and> \<not> prev_pressed L")
    case True
    then have "tares (fst (poll_and_tare w (r # rs) L)) = Suc (tares L)"
      by (simp add: edge_poll_step)
    with assms Cons show ?thesis by simp
  next
    case False
    then have "fst (get_button_pressed (scale L) r) \<noteq> Inr True \<or> prev_pressed L" by blast
    from quiet_poll_step [OF this, of w rs] Cons show ?thesis
      by (auto simp: polls_made_def REG_BUTTON_def)
  qed
qed

lemma read_weights_no_button:
  "filter is_poll (trace (snd (read_weights sg rf ri ra s))) = filter is_poll (trace s)"
  "filter is_tare (trace (snd (read_weights sg rf ri ra s))) = filter is_tare (trace s)"
  by (simp_all add: read_weights_def get_weight_float_def get_weight_int_def get_raw_adc_def
      read_block_def REG_WEIGHT_F32_def REG_WEIGHT_X100_I32_def REG_RAW_ADC_def REG_BUTTON_def
      split: sum.split)

lemma tick_one_poll:
  assumes "tares (fst (tick wide csv_line a i polls L)) = tares L"
  shows "polls_made (fst (tick wide csv_line a i polls L)) \<le> Suc (polls_made L)"
proof -
  define L1 where "L1 = rotate wide a (day i) L"
  define rw where "rw = read_weights (sign a) (f32 i) (x100 i) (adc i) (scale L1)"
  define r where "r = \<lparr>Time = ts i, Weight_g = fst (fst rw), Weight_x100_g = fst (snd (fst rw)),
                        RawADC = snd (snd (fst rw))\<rparr>"
  define L2 where "L2 = write_row csv_line r (L1\<lparr>scale := snd rw\<rparr>)"
  have sc: "scale L1 = scale L" by (simp add: L1_def rotate_def open_log_def Let_def)
  have p2: "polls_made L2 = polls_made L" and t2: "tares L2 = tares L"
    using read_weights_no_button [of "sign a" "f32 i" "x100 i" "adc i" "scale L"]
    by (simp_all add: L2_def write_row_def polls_made_def tares_def rw_def sc)
  obtain L3 q where bt: "button_tick (now i) (tare_ack i) polls L2 = (L3, q)"
    by (cases "button_tick (now i) (tare_ack i) polls L2")
  have tk: "tick wide csv_line a i polls L =
          (case button_tick (now i) (tare_ack i) polls L2 of
             (L3, None) \<Rightarrow> (L3, None)
           | (L3, Some rest) \<Rightarrow>
               (L3\<lparr>scale := sleep (max 0 (interval a - BTN_SAMPLE_SECS)) (scale L3)\<rparr>, Some rest))"
    by (simp add: tick_def Let_def L2_def r_def rw_def L1_def split: prod.split)
  have same: "tares (fst (tick wide csv_line a i polls L)) = tares L3"
       "polls_made (fst (tick wide csv_line a i polls L)) = polls_made L3"
    using tk bt by (cases q; simp add: tares_def polls_made_def sleep_def)+
  have "polls_made L3 \<le> Suc (polls_made L2)"
  proof (cases "now i - last_sample_time L2 \<ge> BTN_SAMPLE_SECS")
    case True
    let ?L = "L2\<lparr>last_sample_time := now i\<rparr>"
    from True bt have pt: "poll_and_tare (tare_ack i) polls ?L = (L3, q)"
      by (simp add: button_tick_def)
    have "tares (fst (poll_and_tare (tare_ack i) polls ?L)) = tares ?L"
      using pt same(1) assms t2 by (simp add: tares_def)
    from poll_and_tare_one_read [OF this] pt show ?thesis by (simp add: polls_made_def)
  next
    case False
    with bt show ?thesis by (simp add: button_tick_def)
  qed
  with same p2 show ?thesis by simp
qed

text \<open>
  C8 fails on the code. With an interval of one second and the button at rest, three
  iterations at clock readings 100, 101 and 102 write three rows and read the button
  three times, once after each row: between two consecutive rows there is one poll, so
  the button is polled at the cadence of the samples, not faster.
\<close>

theorem one_poll_per_row:
  "map is_poll
     (filter (\<lambda>e. is_row e \<or> is_poll e)
        (trace (scale (fst (main_loop (\<lambda>c. False) (\<lambda>r. []) demo_args
                              [sample_tick 100, sample_tick 101, sample_tick 102]
                              [released, released, released] demo_start)))))
     = [False, True, False, True, False, True]"
  by (simp add: eval_defs)

end
